theory Spec2Isabelle
  imports Main
begin

section \<open>Python strings\<close>

text \<open>
  A Python \<open>str\<close> is a sequence of Unicode code points; slicing and \<open>len\<close> count code
  points. A character is therefore modelled by its code point and a string by the list of
  its code points. \<open>py ''abc''\<close> is the string written \<open>"abc"\<close> in the source.
\<close>

type_synonym pychar = nat
type_synonym pystr = "pychar list"

abbreviation (input) py :: "string \<Rightarrow> pystr" where
  "py s \<equiv> map of_char s"

text \<open>The line feed \<open>'\n'\<close>.\<close>

definition NL :: pychar where
  "NL = 10"

text \<open>
  \<open>str.isspace\<close> on one code point: CPython's whitespace table
  (general category \<open>Zs\<close> or bidirectional class \<open>WS\<close>, \<open>B\<close>, \<open>S\<close>).
\<close>

definition isspace :: "pychar \<Rightarrow> bool" where
  "isspace c \<longleftrightarrow>
     (9 \<le> c \<and> c \<le> 13) \<or> (28 \<le> c \<and> c \<le> 32) \<or> c = 133 \<or> c = 160 \<or> c = 5760 \<or>
     (8192 \<le> c \<and> c \<le> 8202) \<or> c = 8232 \<or> c = 8233 \<or> c = 8239 \<or> c = 8287 \<or> c = 12288"

text \<open>\<open>s.strip()\<close>: leading and trailing whitespace removed.\<close>

definition strip :: "pystr \<Rightarrow> pystr" where
  "strip s = rev (dropWhile isspace (rev (dropWhile isspace s)))"

text \<open>\<open>s.startswith(p)\<close>.\<close>

definition startswith :: "pystr \<Rightarrow> pystr \<Rightarrow> bool" where
  "startswith p s \<longleftrightarrow> take (length p) s = p"

text \<open>
  \<open>s.split(sep)\<close> for a separator of one character: the pieces between the separators,
  so that a string without separator (the empty one too) gives one piece.
\<close>

fun split_char :: "pychar \<Rightarrow> pystr \<Rightarrow> pystr list" where
  "split_char sep [] = [[]]"
| "split_char sep (c # cs) =
     (if c = sep then [] # split_char sep cs
      else (case split_char sep cs of
              [] \<Rightarrow> [[c]]
            | l # ls \<Rightarrow> (c # l) # ls))"

text \<open>\<open>sep.join(pieces)\<close> for a separator of one character.\<close>

fun join_char :: "pychar \<Rightarrow> pystr list \<Rightarrow> pystr" where
  "join_char sep [] = []"
| "join_char sep [x] = x"
| "join_char sep (x # y # ys) = x @ sep # join_char sep (y # ys)"

section \<open>The two emitters of \<open>create_documents\<close>\<close>

text \<open>
  What \<open>python-docx\<close> receives: \<open>add_heading(text, level)\<close>, with the alignment of the
  level-1 heading set to centred, and \<open>add_paragraph(text)\<close>.
\<close>

datatype docx_elem =
  DocxHeading nat pystr bool
| DocxParagraph pystr

text \<open>
  What the reportlab story receives: \<open>Paragraph(text, style)\<close> and \<open>Spacer(w, h)\<close>.
\<close>

datatype pdf_style = CustomTitle | Heading2 | Heading3 | Normal

datatype pdf_elem =
  PdfParagraph pystr pdf_style
| Spacer nat nat

text \<open>One turn of the loop of lines 85 to 101, on the document built so far.\<close>

definition add_docx_line :: "docx_elem list \<Rightarrow> pystr \<Rightarrow> docx_elem list" where
  "add_docx_line doc raw =
     (let line = strip raw in
      if line = [] then doc
      else if startswith (py ''# '') line then doc @ [DocxHeading 1 (drop 2 line) True]
      else if startswith (py ''## '') line then doc @ [DocxHeading 2 (drop 3 line) False]
      else if startswith (py ''### '') line then doc @ [DocxHeading 3 (drop 4 line) False]
      else if startswith (py ''#### '') line then doc @ [DocxHeading 4 (drop 5 line) False]
      else if line \<noteq> [] \<and> \<not> startswith (py ''#'') line then doc @ [DocxParagraph line]
      else doc)"

definition docx_body :: "pystr \<Rightarrow> docx_elem list" where
  "docx_body content = foldl add_docx_line [] (split_char NL content)"

text \<open>One turn of the loop of lines 121 to 136, on the story built so far.\<close>

definition add_pdf_line :: "pdf_elem list \<Rightarrow> pystr \<Rightarrow> pdf_elem list" where
  "add_pdf_line story raw =
     (let line = strip raw in
      if line = [] then story @ [Spacer 1 12]
      else if startswith (py ''# '') line then story @ [PdfParagraph (drop 2 line) CustomTitle]
      else if startswith (py ''## '') line then story @ [PdfParagraph (drop 3 line) Heading2]
      else if startswith (py ''### '') line then story @ [PdfParagraph (drop 4 line) Heading3]
      else if line \<noteq> [] \<and> \<not> startswith (py ''#'') line
        then story @ [PdfParagraph line Normal, Spacer 1 6]
      else story)"

definition pdf_story :: "pystr \<Rightarrow> pdf_elem list" where
  "pdf_story content = foldl add_pdf_line [] (split_char NL content)"

subsection \<open>The blocks an output renders\<close>

text \<open>
  To compare the two outputs, each rendered element is read back as the block it shows:
  a heading of some level or a paragraph. Spacers show no block.
\<close>

datatype block = Heading nat pystr | Paragraph pystr

fun docx_block :: "docx_elem \<Rightarrow> block" where
  "docx_block (DocxHeading level t centred) = Heading level t"
| "docx_block (DocxParagraph t) = Paragraph t"

fun pdf_block :: "pdf_elem \<Rightarrow> block option" where
  "pdf_block (PdfParagraph t CustomTitle) = Some (Heading 1 t)"
| "pdf_block (PdfParagraph t Heading2) = Some (Heading 2 t)"
| "pdf_block (PdfParagraph t Heading3) = Some (Heading 3 t)"
| "pdf_block (PdfParagraph t Normal) = Some (Paragraph t)"
| "pdf_block (Spacer w h) = None"

definition docx_blocks :: "pystr \<Rightarrow> block list" where
  "docx_blocks content = map docx_block (docx_body content)"

definition pdf_blocks :: "pystr \<Rightarrow> block list" where
  "pdf_blocks content = List.map_filter pdf_block (pdf_story content)"

subsection \<open>Rebuilding a text from the parsed blocks\<close>

text \<open>The line a block came from: the heading marker of its level and its text.\<close>

fun block_line :: "docx_elem \<Rightarrow> pystr" where
  "block_line (DocxHeading level t centred) = replicate level 35 @ [32] @ t"
| "block_line (DocxParagraph t) = t"

definition reconstruct :: "docx_elem list \<Rightarrow> pystr" where
  "reconstruct doc = join_char NL (map block_line doc)"

text \<open>
  The shape of the elements the loop of lines 85 to 101 can add: a heading has a level
  from 1 to 4 (only level 1 is centred) and a text that is not empty and does not end in
  whitespace; a paragraph is a trimmed, non-empty line that does not begin with \<open>#\<close>.
  No text holds a line feed.
\<close>

fun parsed_elem :: "docx_elem \<Rightarrow> bool" where
  "parsed_elem (DocxHeading level t centred) \<longleftrightarrow>
     1 \<le> level \<and> level \<le> 4 \<and> centred = (level = 1) \<and>
     t \<noteq> [] \<and> \<not> isspace (last t) \<and> NL \<notin> set t"
| "parsed_elem (DocxParagraph t) \<longleftrightarrow>
     t \<noteq> [] \<and> \<not> isspace (hd t) \<and> \<not> isspace (last t) \<and> hd t \<noteq> 35 \<and> NL \<notin> set t"

section \<open>More of Python's strings and dictionaries\<close>

text \<open>\<open>sub in s\<close> for strings.\<close>

fun contains :: "pystr \<Rightarrow> pystr \<Rightarrow> bool" where
  "contains sub [] \<longleftrightarrow> sub = []"
| "contains sub (c # cs) \<longleftrightarrow> startswith sub (c # cs) \<or> contains sub cs"

text \<open>
  \<open>s.replace(old, new)\<close>: the occurrences of \<open>old\<close> are replaced from left to right
  without overlap; an empty \<open>old\<close> matches before every character and at the end.
\<close>

fun replace_from :: "pystr \<Rightarrow> pystr \<Rightarrow> pystr \<Rightarrow> pystr" where
  "replace_from old new [] = []"
| "replace_from old new (c # cs) =
     (if old \<noteq> [] \<and> take (length old) (c # cs) = old
      then new @ replace_from old new (drop (length old - 1) cs)
      else c # replace_from old new cs)"

definition replace :: "pystr \<Rightarrow> pystr \<Rightarrow> pystr \<Rightarrow> pystr" where
  "replace s old new =
     (if old = [] then new @ concat (map (\<lambda>c. c # new) s) else replace_from old new s)"

text \<open>\<open>str(n)\<close> for a natural number, and the zero-padded fields of \<open>strftime\<close>.\<close>

fun str_nat :: "nat \<Rightarrow> pystr" where
  "str_nat n = (if n < 10 then [48 + n] else str_nat (n div 10) @ [48 + n mod 10])"

declare str_nat.simps [simp del]

definition zero_padded :: "nat \<Rightarrow> nat \<Rightarrow> pystr" where
  "zero_padded width n = replicate (width - length (str_nat n)) 48 @ str_nat n"

record datetime =
  year :: nat
  month :: nat
  day :: nat
  hour :: nat
  minute :: nat
  second :: nat

text \<open>\<open>dt.strftime("%Y%m%d_%H%M%S")\<close>.\<close>

definition strftime_stamp :: "datetime \<Rightarrow> pystr" where
  "strftime_stamp dt =
     zero_padded 4 (year dt) @ zero_padded 2 (month dt) @ zero_padded 2 (day dt) @ py ''_'' @
     zero_padded 2 (hour dt) @ zero_padded 2 (minute dt) @ zero_padded 2 (second dt)"

text \<open>\<open>os.path.join(a, b)\<close> of two components, on a POSIX system.\<close>

definition path_join :: "pystr \<Rightarrow> pystr \<Rightarrow> pystr" where
  "path_join a b =
     (if startswith (py ''/'') b then b
      else if a = [] \<or> last a = 47 then a @ b
      else a @ py ''/'' @ b)"

text \<open>
  An exception is kept as its message \<open>str(e)\<close>. Every dictionary of the program has
  string keys and, the message list apart, string values. \<open>d.get(k, default)\<close> and
  \<open>d[k]\<close>, which raises \<open>KeyError\<close> on a missing key:
\<close>

type_synonym exn = pystr
type_synonym pydict = "string \<rightharpoonup> pystr"

definition get :: "pydict \<Rightarrow> string \<Rightarrow> pystr \<Rightarrow> pystr" where
  "get d k dflt = (case d k of None \<Rightarrow> dflt | Some v \<Rightarrow> v)"

definition getitem :: "pydict \<Rightarrow> string \<Rightarrow> exn + pystr" where
  "getitem d k = (case d k of None \<Rightarrow> Inl ([39] @ py k @ [39]) | Some v \<Rightarrow> Inr v)"

section \<open>The world outside the program\<close>

text \<open>One entry of the search service's result list, a missing key read as \<open>''\<close>.\<close>

record search_result =
  res_title :: pystr
  res_content :: pystr
  res_url :: pystr

text \<open>
  The services and the system the program calls, each as the outcome it gives:
  \<^item> \<open>tavily\<close>: the search for a query, the result list or the exception raised by the
    client or while the results are formatted;
  \<^item> \<open>llm\<close>: \<open>llm.invoke\<close> on a prompt, the content of the response or the exception;
  \<^item> \<open>cwd\<close>, \<open>now\<close>: \<open>os.getcwd()\<close> and \<open>datetime.now()\<close>;
  \<^item> \<open>makedirs\<close>: preparing the output directory, the exception if one is raised;
  \<^item> \<open>save_docx\<close>: building the Word document from its elements and saving it at a
    path, the exception if one is raised;
  \<^item> \<open>build_pdf\<close>: building the PDF from its story at a path, the exception if one is
    raised;
  \<^item> \<open>isalnum_wide\<close>: \<open>str.isalnum\<close> on the code points from 128 on (the Unicode
    tables); \<open>str_lower\<close>: \<open>str.lower\<close>.
\<close>

record world =
  tavily :: "pystr \<Rightarrow> exn + search_result list"
  llm :: "pystr \<Rightarrow> exn + pystr"
  cwd :: pystr
  now :: datetime
  makedirs :: "pystr \<Rightarrow> exn option"
  save_docx :: "pystr \<Rightarrow> docx_elem list \<Rightarrow> exn option"
  build_pdf :: "pystr \<Rightarrow> pdf_elem list \<Rightarrow> exn option"
  isalnum_wide :: "pychar \<Rightarrow> bool"
  str_lower :: "pystr \<Rightarrow> pystr"

text \<open>The calls the program makes to the world, in the order it makes them.\<close>

datatype event =
  Search pystr
| Generate pystr
| MakeDirs pystr
| SaveDocx pystr "docx_elem list"
| BuildPdf pystr "pdf_elem list"

definition isalnum :: "world \<Rightarrow> pychar \<Rightarrow> bool" where
  "isalnum w c =
     (if c < 128 then (48 \<le> c \<and> c \<le> 57) \<or> (65 \<le> c \<and> c \<le> 90) \<or> (97 \<le> c \<and> c \<le> 122)
      else isalnum_wide w c)"

section \<open>\<open>research_with_tavily\<close>\<close>

definition search_query :: "pystr \<Rightarrow> pystr" where
  "search_query topic = py ''academic research '' @ topic @ py '' recent studies findings''"

definition format_result :: "nat \<times> search_result \<Rightarrow> pystr" where
  "format_result ir =
     (case ir of (i, result) \<Rightarrow>
        str_nat i @ py ''. **'' @ res_title result @ py ''**\<newline>'' @
        py ''   Content: '' @ take 600 (res_content result) @ py ''...\<newline>'' @
        py ''   Source: '' @ res_url result @ py ''\<newline>\<newline>'')"

definition format_results :: "pystr \<Rightarrow> search_result list \<Rightarrow> pystr" where
  "format_results topic results =
     foldl (\<lambda>formatted ir. formatted @ format_result ir)
       (py ''Research Results for '' @ [39] @ topic @ [39] @ py '':\<newline>\<newline>'')
       (zip [1 ..< Suc (length results)] results)"

definition research_fallback :: "exn \<Rightarrow> pystr" where
  "research_fallback e = py ''Research failed: '' @ e @ py ''. Using AI knowledge instead.''"

definition research_with_tavily :: "world \<Rightarrow> pystr \<Rightarrow> event list \<times> pystr" where
  "research_with_tavily w topic =
     ([Search (search_query topic)],
      (case tavily w (search_query topic) of
         Inr results \<Rightarrow> format_results topic results
       | Inl e \<Rightarrow> research_fallback e))"

section \<open>\<open>create_documents\<close>\<close>

definition safe_topic :: "world \<Rightarrow> pystr \<Rightarrow> pystr" where
  "safe_topic w topic =
     take 30 (replace
       (concat (map (\<lambda>c. if isalnum w c \<or> c \<in> {32, 45, 95} then [c] else []) topic))
       (py '' '') (py ''_''))"

definition doc_dir :: "world \<Rightarrow> pystr" where
  "doc_dir w = path_join (cwd w) (py ''doc'')"

text \<open>The name of the two files without the extension.\<close>

definition base_name :: "world \<Rightarrow> pystr \<Rightarrow> pystr" where
  "base_name w topic =
     py ''research_paper_'' @ safe_topic w topic @ py ''_'' @ strftime_stamp (now w)"

definition filename :: "world \<Rightarrow> pystr \<Rightarrow> pystr" where
  "filename w topic =
     py ''research_paper_'' @ safe_topic w topic @ py ''_'' @ strftime_stamp (now w) @ py ''.docx''"

definition document_path :: "world \<Rightarrow> pystr \<Rightarrow> pystr" where
  "document_path w topic = path_join (doc_dir w) (filename w topic)"

definition pdf_path :: "world \<Rightarrow> pystr \<Rightarrow> pystr" where
  "pdf_path w topic = replace (document_path w topic) (py ''.docx'') (py ''.pdf'')"

text \<open>The dictionary of the outer handler (lines 148 to 152).\<close>

definition creation_failed :: "exn \<Rightarrow> pydict" where
  "creation_failed e =
     [''document_path'' \<mapsto> py ''Document creation failed: '' @ e,
      ''pdf_path'' \<mapsto> py ''PDF creation failed: '' @ e]"

definition create_documents :: "world \<Rightarrow> pystr \<Rightarrow> pystr \<Rightarrow> event list \<times> pydict" where
  "create_documents w content topic =
     (case makedirs w (doc_dir w) of
        Some e \<Rightarrow> ([MakeDirs (doc_dir w)], creation_failed e)
      | None \<Rightarrow>
          (let doc = docx_body content in
           case save_docx w (document_path w topic) doc of
             Some e \<Rightarrow>
               ([MakeDirs (doc_dir w), SaveDocx (document_path w topic) doc],
                creation_failed e)
           | None \<Rightarrow>
               (let story = pdf_story content in
                ([MakeDirs (doc_dir w), SaveDocx (document_path w topic) doc,
                  BuildPdf (pdf_path w topic) story],
                 [''document_path'' \<mapsto> document_path w topic,
                  ''pdf_path'' \<mapsto>
                    (case build_pdf w (pdf_path w topic) story of
                       Some e \<Rightarrow> py ''PDF creation failed: '' @ e
                     | None \<Rightarrow> pdf_path w topic)]))))"

section \<open>The workflow of \<open>SimpleResearchAgent\<close>\<close>

text \<open>
  \<open>ResearchState\<close> is a dictionary with the keys \<open>messages\<close>, \<open>topic\<close>,
  \<open>research_data\<close>, \<open>paper_content\<close>, \<open>document_path\<close>, \<open>pdf_path\<close> and \<open>step\<close>. No
  node adds a message, so the message list stays the empty sequence it starts as. A node
  takes the state and returns the updated state or raises; the calls it makes to the
  world are listed beside its outcome.
\<close>

type_synonym state = pydict
type_synonym node = "state \<Rightarrow> event list \<times> (exn + state)"

record workflow =
  nodes :: "(string \<times> node) list"
  edges :: "(string \<times> string) list"

definition START :: string where
  "START = ''__start__''"

definition END :: string where
  "END = ''__end__''"

definition StateGraph :: workflow where
  "StateGraph = \<lparr>nodes = [], edges = []\<rparr>"

definition add_node :: "workflow \<Rightarrow> string \<Rightarrow> node \<Rightarrow> workflow" where
  "add_node g name f = g\<lparr>nodes := nodes g @ [(name, f)]\<rparr>"

definition add_edge :: "workflow \<Rightarrow> string \<Rightarrow> string \<Rightarrow> workflow" where
  "add_edge g a b = g\<lparr>edges := edges g @ [(a, b)]\<rparr>"

definition research_node :: "world \<Rightarrow> node" where
  "research_node w state =
     (let topic = get state ''topic'' [] in
      case research_with_tavily w topic of
        (ev, research_data) \<Rightarrow>
          (ev, Inr (state(''research_data'' \<mapsto> research_data,
                          ''step'' \<mapsto> py ''research_complete''))))"

definition writing_prompt :: "pystr \<Rightarrow> pystr \<Rightarrow> pystr" where
  "writing_prompt topic research_data =
     py ''Based on the research data below, write a comprehensive academic research paper about '' @
     [34] @ topic @ [34] @
     py ''.\<newline>\<newline>Research Data:\<newline>'' @ research_data @
     py ''\<newline>\<newline>Structure the paper with:\<newline>1. # Title\<newline>2. ## Abstract (150-200 words)\<newline>'' @
     py ''3. ## Introduction\<newline>4. ## Literature Review/Background\<newline>'' @
     py ''5. ## Main Analysis (2-3 sections with ### subheadings)\<newline>6. ## Conclusion\<newline>'' @
     py ''7. ## References\<newline>\<newline>'' @
     py ''Use formal academic language and ensure the paper is well-researched and comprehensive.\<newline>'' @
     py ''Format using markdown headers (# ## ###).\<newline>Include proper citations and references.\<newline>'' @
     py ''Aim for approximately 2000-2500 words.\<newline>\<newline>Write the complete paper now:''"

definition write_node :: "world \<Rightarrow> node" where
  "write_node w state =
     (let topic = get state ''topic'' [];
          research_data = get state ''research_data'' [];
          prompt = writing_prompt topic research_data in
      ([Generate prompt],
       (case llm w prompt of
          Inl e \<Rightarrow> Inl e
        | Inr paper_content \<Rightarrow>
            Inr (state(''paper_content'' \<mapsto> paper_content,
                       ''step'' \<mapsto> py ''writing_complete'')))))"

definition create_docs_node :: "world \<Rightarrow> node" where
  "create_docs_node w state =
     (let topic = get state ''topic'' [];
          paper_content = get state ''paper_content'' [] in
      case create_documents w paper_content topic of
        (ev, doc_results) \<Rightarrow>
          (ev,
           (case getitem doc_results ''document_path'' of
              Inl e \<Rightarrow> Inl e
            | Inr dp \<Rightarrow>
                (case getitem doc_results ''pdf_path'' of
                   Inl e \<Rightarrow> Inl e
                 | Inr pp \<Rightarrow>
                     Inr (state(''document_path'' \<mapsto> dp, ''pdf_path'' \<mapsto> pp,
                                ''step'' \<mapsto> py ''documents_complete''))))))"

definition create_workflow :: "world \<Rightarrow> workflow" where
  "create_workflow w =
     (let workflow = StateGraph;
          workflow = add_node workflow ''research'' (research_node w);
          workflow = add_node workflow ''write'' (write_node w);
          workflow = add_node workflow ''create_docs'' (create_docs_node w);
          workflow = add_edge workflow START ''research'';
          workflow = add_edge workflow ''research'' ''write'';
          workflow = add_edge workflow ''write'' ''create_docs'';
          workflow = add_edge workflow ''create_docs'' END
      in workflow)"

text \<open>
  Running a compiled graph whose nodes have one outgoing edge each: from the current
  node follow the edge, stop at \<open>END\<close>, otherwise run the node the edge leads to on the
  state and go on from there. A node that raises ends the run with its exception. The
  run is the list of the nodes entered, each with the calls it made and its outcome.
  The number of steps is bounded by the recursion limit, 25 unless configured.
\<close>

type_synonym superstep = "string \<times> event list \<times> (exn + state)"

fun run_from :: "nat \<Rightarrow> workflow \<Rightarrow> string \<Rightarrow> state \<Rightarrow> superstep list" where
  "run_from 0 g cur st = [(cur, [], Inl (py ''Recursion limit reached''))]"
| "run_from (Suc n) g cur st =
     (case map_of (edges g) cur of
        None \<Rightarrow> []
      | Some nxt \<Rightarrow>
          if nxt = END then []
          else (case map_of (nodes g) nxt of
                  None \<Rightarrow> [(nxt, [], Inl (py ''unknown node''))]
                | Some f \<Rightarrow>
                    (case f st of
                       (ev, Inl e) \<Rightarrow> [(nxt, ev, Inl e)]
                     | (ev, Inr st') \<Rightarrow> (nxt, ev, Inr st') # run_from n g nxt st')))"

definition invoke :: "workflow \<Rightarrow> state \<Rightarrow> superstep list" where
  "invoke g st = run_from 25 g START st"

text \<open>What \<open>app.invoke\<close> gives back: the last state, or the exception of the node that raised.\<close>

fun final_outcome :: "state \<Rightarrow> superstep list \<Rightarrow> exn + state" where
  "final_outcome st [] = Inr st"
| "final_outcome st ((name, ev, Inl e) # rest) = Inl e"
| "final_outcome st ((name, ev, Inr st') # rest) = final_outcome st' rest"

definition calls :: "superstep list \<Rightarrow> event list" where
  "calls run = concat (map (\<lambda>s. fst (snd s)) run)"

text \<open>The value of \<open>step\<close> a node leaves behind; none when the node raised.\<close>

definition stage_marker :: "superstep \<Rightarrow> pystr option" where
  "stage_marker s = (case snd (snd s) of Inl e \<Rightarrow> None | Inr st \<Rightarrow> st ''step'')"

definition initial_state :: "pystr \<Rightarrow> state" where
  "initial_state topic =
     [''messages'' \<mapsto> [], ''topic'' \<mapsto> topic, ''research_data'' \<mapsto> [],
      ''paper_content'' \<mapsto> [], ''document_path'' \<mapsto> [], ''pdf_path'' \<mapsto> [],
      ''step'' \<mapsto> py ''start'']"

definition pipeline_run :: "world \<Rightarrow> pystr \<Rightarrow> superstep list" where
  "pipeline_run w topic = invoke (create_workflow w) (initial_state topic)"

definition create_research_paper :: "world \<Rightarrow> pystr \<Rightarrow> event list \<times> pydict" where
  "create_research_paper w topic =
     (let run = pipeline_run w topic in
      (calls run,
       (case final_outcome (initial_state topic) run of
          Inr final_state \<Rightarrow>
            [''topic'' \<mapsto> topic,
             ''document_path'' \<mapsto> get final_state ''document_path'' [],
             ''pdf_path'' \<mapsto> get final_state ''pdf_path'' [],
             ''paper_content'' \<mapsto> get final_state ''paper_content'' [],
             ''status'' \<mapsto>
               (if final_state ''step'' = Some (py ''documents_complete'')
                then py ''completed'' else py ''partial'')]
        | Inl e \<Rightarrow>
            [''topic'' \<mapsto> topic, ''error'' \<mapsto> e, ''status'' \<mapsto> py ''failed''])))"

section \<open>Revision: \<open>edit_paper\<close> and the loop of \<open>main\<close>\<close>

definition editing_prompt :: "pystr \<Rightarrow> pystr \<Rightarrow> pystr" where
  "editing_prompt change_request current_content =
     py ''You are editing a research paper. The user wants to make the following changes:'' @
     py ''\<newline>\<newline>USER REQUEST: '' @ change_request @
     py ''\<newline>\<newline>CURRENT PAPER CONTENT:\<newline>'' @ current_content @
     py ''\<newline>\<newline>Please apply the requested changes to the paper content. '' @
     py ''Maintain the same academic structure and formatting, but incorporate the user'' @ [39] @
     py ''s specific requests. Return the complete modified paper content with proper '' @
     py ''markdown formatting.\<newline>\<newline>Modified paper:''"

definition edit_paper :: "world \<Rightarrow> pystr \<Rightarrow> pystr \<Rightarrow> pystr \<Rightarrow> event list \<times> (exn + pydict)" where
  "edit_paper w current_content change_request topic =
     (let prompt = editing_prompt change_request current_content in
      case llm w prompt of
        Inl e \<Rightarrow> ([Generate prompt], Inl e)
      | Inr edited_content \<Rightarrow>
          (case create_documents w edited_content topic of
             (ev, doc_results) \<Rightarrow>
               (Generate prompt # ev,
                (case getitem doc_results ''document_path'' of
                   Inl e \<Rightarrow> Inl e
                 | Inr dp \<Rightarrow>
                     (case getitem doc_results ''pdf_path'' of
                        Inl e \<Rightarrow> Inl e
                      | Inr pp \<Rightarrow>
                          Inr [''topic'' \<mapsto> topic, ''document_path'' \<mapsto> dp,
                               ''pdf_path'' \<mapsto> pp, ''paper_content'' \<mapsto> edited_content,
                               ''status'' \<mapsto> py ''completed''])))))"

text \<open>
  One turn of the loop of lines 362 to 398: \<open>answer\<close> is what the user types at the
  yes/no question and \<open>request\<close> what they type as the description of the changes (read
  only after a yes). The turn gives the calls made, the current result after it and
  whether the loop goes on. Console output is not part of the model.
\<close>

definition revision_round :: "world \<Rightarrow> pydict \<Rightarrow> pystr \<Rightarrow> pystr \<Rightarrow> event list \<times> pydict \<times> bool" where
  "revision_round w current_result answer request =
     (let make_changes = strip (str_lower w answer) in
      if make_changes = py ''y'' then
        (let change_request = strip request in
         if change_request \<noteq> [] then
           (case edit_paper w (get current_result ''paper_content'' []) change_request
                   (get current_result ''topic'' []) of
              (ev, Inl e) \<Rightarrow> (ev, current_result, True)
            | (ev, Inr edit_result) \<Rightarrow>
                if edit_result ''status'' = Some (py ''completed'')
                then (ev, edit_result, True)
                else (ev, current_result, True))
         else ([], current_result, True))
      else if make_changes = py ''n'' then ([], current_result, False)
      else ([], current_result, True))"

subsection \<open>The states of a run\<close>

text \<open>
  The state after the research node, after the write node when the generator answered
  \<open>paper\<close>, and after the document node.
\<close>

definition researched :: "world \<Rightarrow> pystr \<Rightarrow> state" where
  "researched w topic =
     (initial_state topic)(''research_data'' \<mapsto> snd (research_with_tavily w topic),
                           ''step'' \<mapsto> py ''research_complete'')"

definition written :: "world \<Rightarrow> pystr \<Rightarrow> pystr \<Rightarrow> state" where
  "written w topic paper =
     (researched w topic)(''paper_content'' \<mapsto> paper, ''step'' \<mapsto> py ''writing_complete'')"

definition rendered :: "world \<Rightarrow> pystr \<Rightarrow> pystr \<Rightarrow> state" where
  "rendered w topic paper =
     (written w topic paper)
       (''document_path'' \<mapsto> get (snd (create_documents w paper topic)) ''document_path'' [],
        ''pdf_path'' \<mapsto> get (snd (create_documents w paper topic)) ''pdf_path'' [],
        ''step'' \<mapsto> py ''documents_complete'')"

section \<open>A world for concrete runs\<close>

text \<open>
  A world in which every call succeeds: the search finds nothing, the generator answers
  with a title line, and the files are written.
\<close>

definition calm_world :: world where
  "calm_world =
     \<lparr>tavily = (\<lambda>q. Inr []),
      llm = (\<lambda>p. Inr (py ''# T'')),
      cwd = py ''/w'',
      now = \<lparr>year = 2024, month = 5, day = 6, hour = 7, minute = 8, second = 9\<rparr>,
      makedirs = (\<lambda>p. None),
      save_docx = (\<lambda>p d. None),
      build_pdf = (\<lambda>p s. None),
      isalnum_wide = (\<lambda>c. False),
      str_lower = (\<lambda>s. s)\<rparr>"

section \<open>Strings: basic facts\<close>

lemma strip_subset: "set (strip s) \<subseteq> set s"
proof -
  have "set (strip s) = set (dropWhile isspace (rev (dropWhile isspace s)))"
    by (simp add: strip_def)
  also have "\<dots> \<subseteq> set (rev (dropWhile isspace s))"
    by (rule set_dropWhileD [THEN subsetI])
  also have "\<dots> \<subseteq> set s"
    using set_dropWhileD [of _ isspace s] by auto
  finally show ?thesis .
qed

lemma last_dropWhile:
  assumes "dropWhile P xs \<noteq> []"
  shows "last (dropWhile P xs) = last xs"
proof -
  have "last xs = last (takeWhile P xs @ dropWhile P xs)" by simp
  also have "\<dots> = last (dropWhile P xs)" using assms by (rule last_appendR)
  finally show ?thesis by simp
qed

lemma strip_ends:
  assumes "strip s \<noteq> []"
  shows "\<not> isspace (hd (strip s))" and "\<not> isspace (last (strip s))"
proof -
  let ?a = "dropWhile isspace s"
  let ?b = "dropWhile isspace (rev ?a)"
  from assms have b: "?b \<noteq> []" by (simp add: strip_def)
  have a: "?a \<noteq> []"
  proof
    assume "?a = []"
    then have "?b = []" by (simp only: rev.simps dropWhile.simps)
    with b show False by contradiction
  qed
  have hb: "\<not> isspace (hd ?b)" using b by (rule hd_dropWhile)
  have ha: "\<not> isspace (hd ?a)" using a by (rule hd_dropWhile)
  have "hd (strip s) = last ?b" using b by (simp only: strip_def hd_rev)
  also have "\<dots> = last (rev ?a)" using b by (rule last_dropWhile)
  also have "\<dots> = hd ?a" using a by (simp only: last_rev)
  finally show "\<not> isspace (hd (strip s))" using ha by simp
  have "last (strip s) = hd ?b" using b by (simp only: strip_def last_rev)
  then show "\<not> isspace (last (strip s))" using hb by simp
qed

lemma strip_id:
  assumes "s \<noteq> []" and "\<not> isspace (hd s)" and "\<not> isspace (last s)"
  shows "strip s = s"
proof -
  from assms have 1: "dropWhile isspace s = s" by (cases s) auto
  from assms have 2: "dropWhile isspace (rev s) = rev s"
    by (cases s rule: rev_cases) auto
  show ?thesis by (simp add: strip_def 1 2)
qed

section \<open>The parsing loops\<close>

lemma add_docx_line_append: "add_docx_line doc raw = doc @ add_docx_line [] raw"
  by (simp add: add_docx_line_def Let_def)

lemma foldl_add_docx_line:
  "foldl add_docx_line doc ls = doc @ concat (map (add_docx_line []) ls)"
proof (induction ls arbitrary: doc)
  case Nil
  show ?case by simp
next
  case (Cons l ls)
  have "foldl add_docx_line doc (l # ls) = foldl add_docx_line (add_docx_line doc l) ls"
    by simp
  also have "\<dots> = add_docx_line doc l @ concat (map (add_docx_line []) ls)"
    by (rule Cons.IH)
  also have "\<dots> = doc @ add_docx_line [] l @ concat (map (add_docx_line []) ls)"
    by (subst add_docx_line_append) simp
  finally show ?case by simp
qed

lemma startswith_split: "startswith p s \<Longrightarrow> s = p @ drop (length p) s"
  unfolding startswith_def by (metis append_take_drop_id)

lemma startswith_append: "startswith p (p @ t)"
  by (simp add: startswith_def)

lemma split_char_nonempty: "split_char sep s \<noteq> []"
  by (induction s) (auto split: list.splits)

lemma split_char_no_sep: "l \<in> set (split_char sep s) \<Longrightarrow> sep \<notin> set l"
proof (induction s arbitrary: l)
  case Nil
  then show ?case by simp
next
  case (Cons c cs)
  show ?case
  proof (cases "c = sep")
    case True
    with Cons show ?thesis by auto
  next
    case False
    obtain x xs where sp: "split_char sep cs = x # xs"
      using split_char_nonempty [of sep cs] by (cases "split_char sep cs") auto
    with Cons.prems False have "l = c # x \<or> l \<in> set xs" by simp
    then show ?thesis
    proof
      assume "l = c # x"
      moreover have "sep \<notin> set x" using Cons.IH [of x] sp by simp
      ultimately show ?thesis using False by auto
    next
      assume "l \<in> set xs"
      then show ?thesis using Cons.IH [of l] sp by simp
    qed
  qed
qed

lemma split_char_single: "sep \<notin> set x \<Longrightarrow> split_char sep x = [x]"
  by (induction x) auto

lemma split_char_append: "sep \<notin> set x \<Longrightarrow> split_char sep (x @ sep # r) = x # split_char sep r"
  by (induction x) auto

lemma split_join:
  "ls \<noteq> [] \<Longrightarrow> \<forall>l \<in> set ls. sep \<notin> set l \<Longrightarrow> split_char sep (join_char sep ls) = ls"
proof (induction sep ls rule: join_char.induct)
  case (1 sep)
  then show ?case by simp
next
  case (2 sep x)
  then show ?case by (simp add: split_char_single)
next
  case (3 sep x y ys)
  then show ?case by (simp add: split_char_append)
qed

lemma heading_text:
  assumes s: "s \<noteq> []" "\<not> isspace (last s)" "NL \<notin> set s"
    and p: "startswith (m @ [32]) s" and k: "k = length m + 1"
  shows "drop k s \<noteq> [] \<and> \<not> isspace (last (drop k s)) \<and> NL \<notin> set (drop k s)"
proof -
  let ?t = "drop k s"
  from p k have eq: "s = (m @ [32]) @ ?t" using startswith_split [of "m @ [32]" s] by simp
  have ne: "?t \<noteq> []"
  proof
    assume "?t = []"
    with eq have "s = m @ [32]" by simp
    then have "last s = 32" by (metis last_snoc)
    with s(2) show False by (simp add: isspace_def)
  qed
  from eq ne have "last s = last ?t" by (metis last_appendR)
  with s(2) have "\<not> isspace (last ?t)" by simp
  moreover from s(3) have "NL \<notin> set ?t" by (meson in_set_dropD)
  ultimately show ?thesis using ne by simp
qed

lemma docx_line_parsed:
  assumes nl: "NL \<notin> set raw" and e: "e \<in> set (add_docx_line [] raw)"
  shows "parsed_elem e"
proof -
  let ?s = "strip raw"
  from e have ne: "?s \<noteq> []" by (auto simp: add_docx_line_def Let_def split: if_splits)
  have hd: "\<not> isspace (hd ?s)" and lst: "\<not> isspace (last ?s)"
    using strip_ends [OF ne] by simp_all
  have nls: "NL \<notin> set ?s" using nl strip_subset [of raw] by auto
  note H = heading_text [OF ne lst nls]
  consider (h1) "startswith (py ''# '') ?s"
    | (h2) "\<not> startswith (py ''# '') ?s" "startswith (py ''## '') ?s"
    | (h3) "\<not> startswith (py ''# '') ?s" "\<not> startswith (py ''## '') ?s" "startswith (py ''### '') ?s"
    | (h4) "\<not> startswith (py ''# '') ?s" "\<not> startswith (py ''## '') ?s" "\<not> startswith (py ''### '') ?s"
        "startswith (py ''#### '') ?s"
    | (p) "\<not> startswith (py ''# '') ?s" "\<not> startswith (py ''## '') ?s" "\<not> startswith (py ''### '') ?s"
        "\<not> startswith (py ''#### '') ?s"
    by blast
  then show ?thesis
  proof cases
    case h1
    with e ne have "e = DocxHeading 1 (drop 2 ?s) True" by (simp add: add_docx_line_def Let_def)
    then show ?thesis using H [of "[35]" 2] h1 lst by simp
  next
    case h2
    with e ne have "e = DocxHeading 2 (drop 3 ?s) False" by (simp add: add_docx_line_def Let_def)
    then show ?thesis using H [of "[35, 35]" 3] h2 lst by simp
  next
    case h3
    with e ne have "e = DocxHeading 3 (drop 4 ?s) False" by (simp add: add_docx_line_def Let_def)
    then show ?thesis using H [of "[35, 35, 35]" 4] h3 lst by simp
  next
    case h4
    with e ne have "e = DocxHeading 4 (drop 5 ?s) False" by (simp add: add_docx_line_def Let_def)
    then show ?thesis using H [of "[35, 35, 35, 35]" 5] h4 lst by simp
  next
    case p
    with e ne have "e = DocxParagraph ?s \<and> \<not> startswith (py ''#'') ?s"
      by (simp add: add_docx_line_def Let_def split: if_splits)
    then show ?thesis using ne hd lst nls by (cases ?s) (auto simp: startswith_def)
  qed
qed

lemma docx_line_block_line:
  assumes "parsed_elem e"
  shows "add_docx_line [] (block_line e) = [e]"
proof (cases e)
  case (DocxHeading level t centred)
  with assms have t: "t \<noteq> []" "\<not> isspace (last t)" and lv: "level \<in> {1, 2, 3, 4}"
    and c: "centred = (level = 1)" by auto
  let ?l = "replicate level 35 @ [32] @ t"
  have "?l \<noteq> []" by simp
  moreover have "\<not> isspace (hd ?l)" using lv by (auto simp: isspace_def)
  moreover have "\<not> isspace (last ?l)" using t by simp
  ultimately have st: "strip ?l = ?l" by (rule strip_id)
  show ?thesis using lv
    unfolding DocxHeading block_line.simps add_docx_line_def st Let_def
    by (auto simp: startswith_def c)
next
  case (DocxParagraph t)
  with assms have t: "t \<noteq> []" "\<not> isspace (hd t)" "\<not> isspace (last t)" "hd t \<noteq> 35" by auto
  then have st: "strip t = t" by (simp add: strip_id)
  from t obtain c cs where tc: "t = c # cs" "c \<noteq> 35" by (cases t) auto
  show ?thesis
    unfolding DocxParagraph block_line.simps add_docx_line_def st Let_def
    by (simp add: startswith_def tc)
qed

lemma concat_map_singleton: "(\<And>x. x \<in> set xs \<Longrightarrow> f (g x) = [x]) \<Longrightarrow> concat (map f (map g xs)) = xs"
  by (induction xs) auto

lemma add_pdf_line_append: "add_pdf_line story raw = story @ add_pdf_line [] raw"
  by (simp add: add_pdf_line_def Let_def)

lemma foldl_add_pdf_line:
  "foldl add_pdf_line story ls = story @ concat (map (add_pdf_line []) ls)"
proof (induction ls arbitrary: story)
  case Nil
  show ?case by simp
next
  case (Cons l ls)
  have "foldl add_pdf_line story (l # ls) = foldl add_pdf_line (add_pdf_line story l) ls"
    by simp
  also have "\<dots> = add_pdf_line story l @ concat (map (add_pdf_line []) ls)"
    by (rule Cons.IH)
  also have "\<dots> = story @ add_pdf_line [] l @ concat (map (add_pdf_line []) ls)"
    by (subst add_pdf_line_append) simp
  finally show ?case by simp
qed

lemma line_blocks_agree:
  assumes "\<not> startswith (py ''#### '') (strip raw)"
  shows "map docx_block (add_docx_line [] raw) = List.map_filter pdf_block (add_pdf_line [] raw)"
  using assms by (simp add: add_docx_line_def add_pdf_line_def Let_def List.map_filter_def)

text \<open>
  Apart from lines that trim to a level-4 heading, the two loops render the same blocks
  in the same order.
\<close>

lemma emitters_agree_without_level4:
  assumes "\<forall>raw \<in> set (split_char NL content). \<not> startswith (py ''#### '') (strip raw)"
  shows "docx_blocks content = pdf_blocks content"
proof -
  have "map docx_block (concat (map (add_docx_line []) ls)) =
        List.map_filter pdf_block (concat (map (add_pdf_line []) ls))"
    if "\<forall>raw \<in> set ls. \<not> startswith (py ''#### '') (strip raw)" for ls
    using that
  proof (induction ls)
    case Nil
    show ?case by (simp add: List.map_filter_def)
  next
    case (Cons l ls)
    then have "map docx_block (add_docx_line [] l) = List.map_filter pdf_block (add_pdf_line [] l)"
      by (simp add: line_blocks_agree)
    with Cons show ?case by (simp add: List.map_filter_def)
  qed
  with assms show ?thesis
    by (simp add: docx_blocks_def pdf_blocks_def docx_body_def pdf_story_def
        foldl_add_docx_line foldl_add_pdf_line)
qed

section \<open>Claims about the parsing loops\<close>

text \<open>
  C1. The claim is that the rich-text output and the printable output render the same
  blocks in the same order for every content. The content \<open>"#### X"\<close> shows the
  difference: the rich-text loop renders a level-4 heading with text \<open>X\<close>, the printable
  loop has no branch for the level-4 marker and renders nothing.
\<close>

theorem level4_heading_only_in_docx:
  "docx_blocks (py ''#### X'') = [Heading 4 (py ''X'')] \<and> pdf_blocks (py ''#### X'') = []"
  by (simp add: docx_blocks_def docx_body_def pdf_blocks_def pdf_story_def NL_def
      add_docx_line_def add_pdf_line_def strip_def isspace_def startswith_def
      List.map_filter_def)

text \<open>
  C2, as stated: a line beginning with four hashes and a space produces a level-4 heading.
  The line \<open>"#### "\<close> begins so, but the loop trims it to \<open>"####"\<close> first and then
  adds nothing.
\<close>

theorem heading4_untrimmed_counterexample:
  "startswith (py ''#### '') (py ''#### '') \<and> add_docx_line [] (py ''#### '') = []"
  by (simp add: add_docx_line_def strip_def isspace_def startswith_def)

text \<open>
  C2, amended: recognition works on the trimmed line. In the rich-text loop, a line that
  trims to the four-hash marker followed by \<open>t\<close> adds a level-4 heading with text \<open>t\<close>.
  In both loops, a line that trims to something beginning with \<open>#\<close> and matching none of
  the four markers adds nothing: no heading and no paragraph.
\<close>

theorem heading_boundary:
  "(strip raw = py ''#### '' @ t \<longrightarrow>
      add_docx_line doc raw = doc @ [DocxHeading 4 t False]) \<and>
   (startswith (py ''#'') (strip raw) \<and> \<not> startswith (py ''# '') (strip raw) \<and>
    \<not> startswith (py ''## '') (strip raw) \<and> \<not> startswith (py ''### '') (strip raw) \<and>
    \<not> startswith (py ''#### '') (strip raw) \<longrightarrow>
      add_docx_line doc raw = doc \<and> add_pdf_line story raw = story)"
  by (auto simp: add_docx_line_def add_pdf_line_def Let_def startswith_def)

theorem heading_boundary_witness:
  "add_docx_line [] (py ''  #### Deep '') = [DocxHeading 4 (py ''Deep'') False] \<and>
   add_docx_line [] (py ''##### X'') = [] \<and> add_pdf_line [] (py ''##### X'') = [] \<and>
   add_docx_line [] (py ''#X'') = [] \<and> add_pdf_line [] (py ''#X'') = []"
  using heading_boundary [of "py ''  #### Deep ''" "py ''Deep''" "[]" "[]"]
    heading_boundary [of "py ''##### X''" "[]" "[]" "[]"]
    heading_boundary [of "py ''#X''" "[]" "[]" "[]"]
  by (simp add: strip_def isspace_def startswith_def)

text \<open>
  C10. Parsing is idempotent on the block structure: the text rebuilt from the parsed
  blocks (each heading with the marker of its level, each paragraph as it is, one block
  per line) parses to the same blocks again.
\<close>

theorem parse_reconstruct_idempotent:
  "docx_body (reconstruct (docx_body content)) = docx_body content"
proof -
  let ?doc = "docx_body content"
  have doc: "?doc = concat (map (add_docx_line []) (split_char NL content))"
    by (simp add: docx_body_def foldl_add_docx_line)
  have parsed: "parsed_elem e" if "e \<in> set ?doc" for e
  proof -
    from that obtain raw where "raw \<in> set (split_char NL content)" "e \<in> set (add_docx_line [] raw)"
      unfolding doc by auto
    then show ?thesis using docx_line_parsed split_char_no_sep by blast
  qed
  show ?thesis
  proof (cases "?doc = []")
    case True
    then show ?thesis
      by (simp add: reconstruct_def docx_body_def add_docx_line_def strip_def)
  next
    case False
    have nl: "\<forall>l \<in> set (map block_line ?doc). NL \<notin> set l"
    proof
      fix l assume "l \<in> set (map block_line ?doc)"
      then obtain e where e: "e \<in> set ?doc" "l = block_line e" by auto
      with parsed [of e] show "NL \<notin> set l" by (cases e) (auto simp: NL_def)
    qed
    have "split_char NL (reconstruct ?doc) = map block_line ?doc"
      unfolding reconstruct_def using False nl by (intro split_join) simp_all
    then have "docx_body (reconstruct ?doc) = concat (map (add_docx_line []) (map block_line ?doc))"
      by (simp add: docx_body_def foldl_add_docx_line)
    also have "\<dots> = ?doc"
      by (rule concat_map_singleton) (simp add: docx_line_block_line parsed)
    finally show ?thesis .
  qed
qed


section \<open>The run of the workflow\<close>

lemma run_from_numeral:
  "run_from (numeral k) g cur st =
     (case map_of (edges g) cur of
        None \<Rightarrow> []
      | Some nxt \<Rightarrow>
          if nxt = END then []
          else (case map_of (nodes g) nxt of
                  None \<Rightarrow> [(nxt, [], Inl (py ''unknown node''))]
                | Some f \<Rightarrow>
                    (case f st of
                       (ev, Inl e) \<Rightarrow> [(nxt, ev, Inl e)]
                     | (ev, Inr st') \<Rightarrow>
                         (nxt, ev, Inr st') # run_from (pred_numeral k) g nxt st')))"
  by (simp only: numeral_eq_Suc run_from.simps)

lemma workflow_edges:
  "edges (create_workflow w) =
     [(START, ''research''), (''research'', ''write''), (''write'', ''create_docs''),
      (''create_docs'', END)]"
  by (simp add: create_workflow_def StateGraph_def add_node_def add_edge_def)

lemma workflow_nodes:
  "nodes (create_workflow w) =
     [(''research'', research_node w), (''write'', write_node w),
      (''create_docs'', create_docs_node w)]"
  by (simp add: create_workflow_def StateGraph_def add_node_def add_edge_def)

lemma getitem_create_documents:
  "getitem (snd (create_documents w content topic)) ''document_path'' =
     Inr (get (snd (create_documents w content topic)) ''document_path'' [])"
  "getitem (snd (create_documents w content topic)) ''pdf_path'' =
     Inr (get (snd (create_documents w content topic)) ''pdf_path'' [])"
  by (simp_all add: create_documents_def creation_failed_def getitem_def get_def Let_def
      split: option.splits)

lemma create_docs_node_returns:
  "create_docs_node w st =
     (fst (create_documents w (get st ''paper_content'' []) (get st ''topic'' [])),
      Inr (st(''document_path'' \<mapsto>
                get (snd (create_documents w (get st ''paper_content'' []) (get st ''topic'' [])))
                  ''document_path'' [],
              ''pdf_path'' \<mapsto>
                get (snd (create_documents w (get st ''paper_content'' []) (get st ''topic'' [])))
                  ''pdf_path'' [],
              ''step'' \<mapsto> py ''documents_complete'')))"
proof -
  let ?c = "get st ''paper_content'' []" and ?t = "get st ''topic'' []"
  obtain ev r where cd: "create_documents w ?c ?t = (ev, r)"
    by (cases "create_documents w ?c ?t")
  have g1: "getitem r ''document_path'' = Inr (get r ''document_path'' [])"
    using getitem_create_documents(1) [of w ?c ?t] by (simp add: cd)
  have g2: "getitem r ''pdf_path'' = Inr (get r ''pdf_path'' [])"
    using getitem_create_documents(2) [of w ?c ?t] by (simp add: cd)
  show ?thesis by (simp add: create_docs_node_def Let_def cd g1 g2)
qed

lemma research_node_initial:
  "research_node w (initial_state topic) = ([Search (search_query topic)], Inr (researched w topic))"
  by (simp add: research_node_def researched_def research_with_tavily_def get_def initial_state_def)

lemma researched_get:
  "get (researched w topic) ''topic'' [] = topic"
  "get (researched w topic) ''research_data'' [] = snd (research_with_tavily w topic)"
  by (simp_all add: researched_def get_def initial_state_def)


lemma write_node_researched:
  "write_node w (researched w topic) =
     ([Generate (writing_prompt topic (snd (research_with_tavily w topic)))],
      (case llm w (writing_prompt topic (snd (research_with_tavily w topic))) of
         Inl e \<Rightarrow> Inl e
       | Inr paper \<Rightarrow> Inr (written w topic paper)))"
  by (simp add: write_node_def Let_def researched_get written_def split: sum.splits)

lemma written_get:
  "get (written w topic paper) ''topic'' [] = topic"
  "get (written w topic paper) ''paper_content'' [] = paper"
  by (simp_all add: written_def researched_def get_def initial_state_def)

lemma create_docs_node_written:
  "create_docs_node w (written w topic paper) =
     (fst (create_documents w paper topic), Inr (rendered w topic paper))"
  by (simp only: create_docs_node_returns written_get rendered_def)

lemma pipeline_run_generated:
  assumes "llm w (writing_prompt topic (snd (research_with_tavily w topic))) = Inr paper"
  shows "pipeline_run w topic =
     [(''research'', [Search (search_query topic)], Inr (researched w topic)),
      (''write'', [Generate (writing_prompt topic (snd (research_with_tavily w topic)))],
         Inr (written w topic paper)),
      (''create_docs'', fst (create_documents w paper topic), Inr (rendered w topic paper))]"
  by (simp add: pipeline_run_def invoke_def run_from_numeral workflow_edges workflow_nodes
      START_def END_def research_node_initial write_node_researched assms
      create_docs_node_written)

lemma pipeline_run_generation_failed:
  assumes "llm w (writing_prompt topic (snd (research_with_tavily w topic))) = Inl e"
  shows "pipeline_run w topic =
     [(''research'', [Search (search_query topic)], Inr (researched w topic)),
      (''write'', [Generate (writing_prompt topic (snd (research_with_tavily w topic)))],
         Inl e)]"
  by (simp add: pipeline_run_def invoke_def run_from_numeral workflow_edges workflow_nodes
      START_def END_def research_node_initial write_node_researched assms)

lemma rendered_get:
  "get (rendered w topic paper) ''document_path'' [] =
     get (snd (create_documents w paper topic)) ''document_path'' []"
  "get (rendered w topic paper) ''pdf_path'' [] =
     get (snd (create_documents w paper topic)) ''pdf_path'' []"
  "get (rendered w topic paper) ''paper_content'' [] = paper"
  "rendered w topic paper ''step'' = Some (py ''documents_complete'')"
  by (simp_all add: rendered_def written_def get_def)

lemma create_research_paper_generated:
  assumes "llm w (writing_prompt topic (snd (research_with_tavily w topic))) = Inr paper"
  shows "create_research_paper w topic =
     ([Search (search_query topic),
       Generate (writing_prompt topic (snd (research_with_tavily w topic)))] @
      fst (create_documents w paper topic),
      [''topic'' \<mapsto> topic,
       ''document_path'' \<mapsto> get (snd (create_documents w paper topic)) ''document_path'' [],
       ''pdf_path'' \<mapsto> get (snd (create_documents w paper topic)) ''pdf_path'' [],
       ''paper_content'' \<mapsto> paper,
       ''status'' \<mapsto> py ''completed''])"
  unfolding create_research_paper_def pipeline_run_generated [OF assms] Let_def calls_def
  by (simp add: rendered_get)

lemma create_research_paper_generation_failed:
  assumes "llm w (writing_prompt topic (snd (research_with_tavily w topic))) = Inl e"
  shows "create_research_paper w topic =
     ([Search (search_query topic),
       Generate (writing_prompt topic (snd (research_with_tavily w topic)))],
      [''topic'' \<mapsto> topic, ''error'' \<mapsto> e, ''status'' \<mapsto> py ''failed''])"
  unfolding create_research_paper_def pipeline_run_generation_failed [OF assms] Let_def calls_def
  by simp

lemma create_documents_primary_failed:
  assumes "makedirs w (doc_dir w) = None"
    and "save_docx w (document_path w topic) (docx_body content) = Some e"
  shows "create_documents w content topic =
     ([MakeDirs (doc_dir w), SaveDocx (document_path w topic) (docx_body content)],
      creation_failed e)"
  using assms by (simp add: create_documents_def Let_def)

lemma create_documents_secondary_failed:
  assumes "makedirs w (doc_dir w) = None"
    and "save_docx w (document_path w topic) (docx_body content) = None"
    and "build_pdf w (pdf_path w topic) (pdf_story content) = Some e"
  shows "create_documents w content topic =
     ([MakeDirs (doc_dir w), SaveDocx (document_path w topic) (docx_body content),
       BuildPdf (pdf_path w topic) (pdf_story content)],
      [''document_path'' \<mapsto> document_path w topic,
       ''pdf_path'' \<mapsto> py ''PDF creation failed: '' @ e])"
  using assms by (simp add: create_documents_def Let_def)

lemma create_documents_written:
  assumes "makedirs w (doc_dir w) = None"
    and "save_docx w (document_path w topic) (docx_body content) = None"
    and "build_pdf w (pdf_path w topic) (pdf_story content) = None"
  shows "create_documents w content topic =
     ([MakeDirs (doc_dir w), SaveDocx (document_path w topic) (docx_body content),
       BuildPdf (pdf_path w topic) (pdf_story content)],
      [''document_path'' \<mapsto> document_path w topic, ''pdf_path'' \<mapsto> pdf_path w topic])"
  using assms by (simp add: create_documents_def Let_def)

lemma contains_self_append: "contains sub (sub @ b)"
proof (cases "sub @ b")
  case Nil
  then show ?thesis by simp
next
  case (Cons a list)
  have "startswith sub (sub @ b)" by (simp add: startswith_def)
  then show ?thesis by (simp add: Cons)
qed

lemma contains_append: "contains sub s \<Longrightarrow> contains sub (a @ s)"
  by (induction a) simp_all

section \<open>Claims about the pipeline\<close>

text \<open>
  C3, as stated: when the rich-text emitter fails the run is reported as failed, never
  as completed. In a world where saving the Word document raises \<open>disk full\<close>,
  \<open>create_documents\<close> returns the two error descriptors, and the run is reported with
  status \<open>completed\<close> and without an error entry.
\<close>

theorem primary_failure_reported_completed:
  "snd (create_documents (calm_world\<lparr>save_docx := \<lambda>p d. Some (py ''disk full'')\<rparr>)
          (py ''# T'') (py ''t'')) = creation_failed (py ''disk full'') \<and>
   snd (create_research_paper (calm_world\<lparr>save_docx := \<lambda>p d. Some (py ''disk full'')\<rparr>) (py ''t''))
     ''error'' = None \<and>
   snd (create_research_paper (calm_world\<lparr>save_docx := \<lambda>p d. Some (py ''disk full'')\<rparr>) (py ''t''))
     ''status'' = Some (py ''completed'')"
  by (simp add: create_research_paper_generated create_documents_def Let_def calm_world_def)

text \<open>
  C3, amended: if the generator answers \<open>paper\<close>, the directory is prepared and
  saving the Word document raises \<open>e\<close>, then \<open>create_documents\<close> returns the two error
  descriptors and the result of the run holds them as its paths; the result has no error
  entry and its status is \<open>completed\<close>.
\<close>

theorem primary_failure_descriptors:
  assumes "llm w (writing_prompt topic (snd (research_with_tavily w topic))) = Inr paper"
    and "makedirs w (doc_dir w) = None"
    and "save_docx w (document_path w topic) (docx_body paper) = Some e"
  shows "snd (create_documents w paper topic) = creation_failed e \<and>
    snd (create_research_paper w topic) ''document_path'' =
      Some (py ''Document creation failed: '' @ e) \<and>
    snd (create_research_paper w topic) ''pdf_path'' = Some (py ''PDF creation failed: '' @ e) \<and>
    snd (create_research_paper w topic) ''error'' = None \<and>
    snd (create_research_paper w topic) ''status'' = Some (py ''completed'')"
  by (simp add: create_research_paper_generated [OF assms(1)]
      create_documents_primary_failed [OF assms(2,3)] creation_failed_def get_def)

theorem primary_failure_descriptors_witness:
  "snd (create_research_paper (calm_world\<lparr>save_docx := \<lambda>p d. Some (py ''disk full'')\<rparr>) (py ''t''))
     ''document_path'' = Some (py ''Document creation failed: disk full'') \<and>
   snd (create_research_paper (calm_world\<lparr>save_docx := \<lambda>p d. Some (py ''disk full'')\<rparr>) (py ''t''))
     ''pdf_path'' = Some (py ''PDF creation failed: disk full'')"
  using primary_failure_descriptors [of "calm_world\<lparr>save_docx := \<lambda>p d. Some (py ''disk full'')\<rparr>"
      "py ''t''" "py ''# T''" "py ''disk full''"]
  by (simp add: calm_world_def)

text \<open>
  C4, as stated: the fallback bundle contains the topic text. With the topic
  \<open>quantum\<close> and a search that raises \<open>timeout\<close>, the bundle is
  \<open>Research failed: timeout. Using AI knowledge instead.\<close>, which does not contain the
  topic.
\<close>

theorem fallback_without_topic:
  "tavily (calm_world\<lparr>tavily := \<lambda>q. Inl (py ''timeout'')\<rparr>) (search_query (py ''quantum'')) =
     Inl (py ''timeout'') \<and>
   \<not> contains (py ''quantum'')
     (snd (research_with_tavily (calm_world\<lparr>tavily := \<lambda>q. Inl (py ''timeout'')\<rparr>) (py ''quantum'')))"
  by (simp add: research_with_tavily_def research_fallback_def calm_world_def startswith_def)

text \<open>
  C4, amended: if the search raises \<open>e\<close>, then \<open>research_with_tavily\<close> returns the
  fallback text, which is not empty and contains \<open>e\<close>; the research node returns a state
  and does not raise; and if the generator answers the prompt built from the fallback
  text, the run is reported with status \<open>completed\<close> and no error entry.
\<close>

theorem research_failure_degrades:
  assumes "tavily w (search_query topic) = Inl e"
  shows "research_with_tavily w topic = ([Search (search_query topic)], research_fallback e) \<and>
    research_fallback e \<noteq> [] \<and> contains e (research_fallback e) \<and>
    research_node w (initial_state topic) =
      ([Search (search_query topic)],
       Inr ((initial_state topic)(''research_data'' \<mapsto> research_fallback e,
                                   ''step'' \<mapsto> py ''research_complete''))) \<and>
    (llm w (writing_prompt topic (research_fallback e)) = Inr paper \<longrightarrow>
       snd (create_research_paper w topic) ''status'' = Some (py ''completed'') \<and>
       snd (create_research_paper w topic) ''error'' = None)"
proof -
  have r: "research_with_tavily w topic = ([Search (search_query topic)], research_fallback e)"
    using assms by (simp add: research_with_tavily_def)
  have "contains e (e @ py ''. Using AI knowledge instead.'')"
    by (rule contains_self_append)
  then have c: "contains e (research_fallback e)"
    unfolding research_fallback_def by (rule contains_append)
  have n: "research_fallback e \<noteq> []" by (simp add: research_fallback_def)
  have node: "research_node w (initial_state topic) =
      ([Search (search_query topic)],
       Inr ((initial_state topic)(''research_data'' \<mapsto> research_fallback e,
                                   ''step'' \<mapsto> py ''research_complete'')))"
    by (simp add: research_node_initial researched_def r)
  have "snd (create_research_paper w topic) ''status'' = Some (py ''completed'') \<and>
       snd (create_research_paper w topic) ''error'' = None"
    if "llm w (writing_prompt topic (research_fallback e)) = Inr paper"
    using create_research_paper_generated [of w topic paper] that r by simp
  with r c n node show ?thesis by blast
qed

theorem research_failure_degrades_witness:
  "snd (research_with_tavily (calm_world\<lparr>tavily := \<lambda>q. Inl (py ''timeout'')\<rparr>) (py ''quantum'')) =
     py ''Research failed: timeout. Using AI knowledge instead.'' \<and>
   snd (create_research_paper (calm_world\<lparr>tavily := \<lambda>q. Inl (py ''timeout'')\<rparr>) (py ''quantum''))
     ''status'' = Some (py ''completed'')"
  using research_failure_degrades [of "calm_world\<lparr>tavily := \<lambda>q. Inl (py ''timeout'')\<rparr>"
      "py ''quantum''" "py ''timeout''" "py ''# T''"]
  by (simp add: calm_world_def research_fallback_def)

text \<open>
  C5, as stated: the failure of the generator is caught at the boundary of the write
  stage. The write node has no handler: when the generator raises \<open>quota\<close>, the node
  itself raises \<open>quota\<close>.
\<close>

theorem write_node_raises:
  "snd (write_node (calm_world\<lparr>llm := \<lambda>p. Inl (py ''quota'')\<rparr>) (initial_state (py ''t''))) =
     Inl (py ''quota'')"
  by (simp add: write_node_def Let_def calm_world_def)

text \<open>
  C5, amended: if the generator raises \<open>e\<close>, the exception leaves the write node and is
  caught by the handler of \<open>create_research_paper\<close>, which returns a dictionary with
  the topic, the error message \<open>e\<close> and the status \<open>failed\<close>. The run has made the
  search call and the generator call only: no document was rendered.
\<close>

theorem generation_failure_reported:
  assumes "llm w (writing_prompt topic (snd (research_with_tavily w topic))) = Inl e"
  shows "create_research_paper w topic =
     ([Search (search_query topic),
       Generate (writing_prompt topic (snd (research_with_tavily w topic)))],
      [''topic'' \<mapsto> topic, ''error'' \<mapsto> e, ''status'' \<mapsto> py ''failed''])"
  using assms by (rule create_research_paper_generation_failed)

theorem generation_failure_reported_witness:
  "create_research_paper (calm_world\<lparr>llm := \<lambda>p. Inl (py ''quota'')\<rparr>) (py ''t'') =
     ([Search (search_query (py ''t'')),
       Generate (writing_prompt (py ''t'') (format_results (py ''t'') []))],
      [''topic'' \<mapsto> py ''t'', ''error'' \<mapsto> py ''quota'', ''status'' \<mapsto> py ''failed''])"
  using generation_failure_reported [of "calm_world\<lparr>llm := \<lambda>p. Inl (py ''quota'')\<rparr>"
      "py ''t''" "py ''quota''"]
  by (simp add: calm_world_def research_with_tavily_def)

text \<open>
  C6. If the generator answers, the directory is prepared and the Word document is
  saved, but building the PDF raises \<open>e\<close>, then the result holds the path of the Word
  document, the text \<open>PDF creation failed: e\<close> in the place of the PDF path, no error
  entry, and the status \<open>completed\<close>.
\<close>

theorem secondary_failure_completes:
  assumes "llm w (writing_prompt topic (snd (research_with_tavily w topic))) = Inr paper"
    and "makedirs w (doc_dir w) = None"
    and "save_docx w (document_path w topic) (docx_body paper) = None"
    and "build_pdf w (pdf_path w topic) (pdf_story paper) = Some e"
  shows "snd (create_research_paper w topic) ''document_path'' = Some (document_path w topic) \<and>
    snd (create_research_paper w topic) ''pdf_path'' = Some (py ''PDF creation failed: '' @ e) \<and>
    snd (create_research_paper w topic) ''error'' = None \<and>
    snd (create_research_paper w topic) ''status'' = Some (py ''completed'')"
  by (simp add: create_research_paper_generated [OF assms(1)]
      create_documents_secondary_failed [OF assms(2,3,4)] get_def)

theorem secondary_failure_completes_witness:
  "snd (create_research_paper (calm_world\<lparr>build_pdf := \<lambda>p s. Some (py ''bad markup'')\<rparr>) (py ''t''))
     ''pdf_path'' = Some (py ''PDF creation failed: bad markup'') \<and>
   snd (create_research_paper (calm_world\<lparr>build_pdf := \<lambda>p s. Some (py ''bad markup'')\<rparr>) (py ''t''))
     ''status'' = Some (py ''completed'')"
  using secondary_failure_completes [of "calm_world\<lparr>build_pdf := \<lambda>p s. Some (py ''bad markup'')\<rparr>"
      "py ''t''" "py ''# T''" "py ''bad markup''"]
  by (simp add: calm_world_def)

text \<open>
  C7, as stated: \<open>edit_paper\<close> with an empty change request calls neither the generator
  nor the renderer. It has no such check: with the empty request it calls the generator,
  prepares the directory, saves the Word document, builds the PDF, and reports
  \<open>completed\<close>.
\<close>

theorem edit_paper_empty_request:
  "fst (edit_paper calm_world (py ''# T'') [] (py ''t'')) =
     [Generate (editing_prompt [] (py ''# T'')), MakeDirs (doc_dir calm_world),
      SaveDocx (document_path calm_world (py ''t'')) (docx_body (py ''# T'')),
      BuildPdf (pdf_path calm_world (py ''t'')) (pdf_story (py ''# T''))] \<and>
   (case snd (edit_paper calm_world (py ''# T'') [] (py ''t'')) of
      Inl e \<Rightarrow> None | Inr r \<Rightarrow> r ''status'') = Some (py ''completed'')"
  by (simp add: edit_paper_def Let_def create_documents_def getitem_def calm_world_def)

text \<open>
  C7, amended: the check is in the loop of \<open>main\<close>. When the user answers yes and the
  change request is empty after trimming, the turn makes no call at all (no generator
  call, no render), keeps the current result and goes on asking.
\<close>

theorem empty_request_rejected_by_loop:
  assumes "strip (str_lower w answer) = py ''y''" and "strip request = []"
  shows "revision_round w current_result answer request = ([], current_result, True)"
  using assms by (simp add: revision_round_def Let_def)

theorem empty_request_rejected_by_loop_witness:
  "revision_round calm_world (snd (create_research_paper calm_world (py ''t''))) (py '' y '') (py ''   '') =
     ([], snd (create_research_paper calm_world (py ''t'')), True)"
  using empty_request_rejected_by_loop [of calm_world "py '' y ''" "py ''   ''"
      "snd (create_research_paper calm_world (py ''t''))"]
  by (simp add: calm_world_def strip_def isspace_def)

text \<open>
  C8. A run starts with the marker \<open>start\<close>. It enters the nodes \<open>research\<close>,
  \<open>write\<close>, \<open>create_docs\<close> once each in this order, leaving the markers
  \<open>research_complete\<close>, \<open>writing_complete\<close>, \<open>documents_complete\<close>; when the generator
  raises, the run ends in the write node, which leaves no marker, and no node is entered
  after it.
\<close>

theorem stages_in_order:
  "initial_state topic ''step'' = Some (py ''start'') \<and>
   map (\<lambda>s. (fst s, stage_marker s)) (pipeline_run w topic) =
     (case llm w (writing_prompt topic (snd (research_with_tavily w topic))) of
        Inr paper \<Rightarrow>
          [(''research'', Some (py ''research_complete'')),
           (''write'', Some (py ''writing_complete'')),
           (''create_docs'', Some (py ''documents_complete''))]
      | Inl e \<Rightarrow> [(''research'', Some (py ''research_complete'')), (''write'', None)])"
proof (cases "llm w (writing_prompt topic (snd (research_with_tavily w topic)))")
  case (Inl e)
  then show ?thesis
    by (simp add: pipeline_run_generation_failed stage_marker_def researched_def initial_state_def)
next
  case (Inr paper)
  then show ?thesis
    by (simp add: pipeline_run_generated stage_marker_def researched_def written_def
        rendered_def initial_state_def)
qed

theorem stages_in_order_witness:
  "map (\<lambda>s. (fst s, stage_marker s)) (pipeline_run calm_world (py ''t'')) =
     [(''research'', Some (py ''research_complete'')),
      (''write'', Some (py ''writing_complete'')),
      (''create_docs'', Some (py ''documents_complete''))] \<and>
   map (\<lambda>s. (fst s, stage_marker s))
     (pipeline_run (calm_world\<lparr>llm := \<lambda>p. Inl (py ''quota'')\<rparr>) (py ''t'')) =
     [(''research'', Some (py ''research_complete'')), (''write'', None)]"
  using stages_in_order [of "py ''t''" calm_world]
    stages_in_order [of "py ''t''" "calm_world\<lparr>llm := \<lambda>p. Inl (py ''quota'')\<rparr>"]
  by (simp add: calm_world_def)

section \<open>File names\<close>

lemma replace_from_single:
  "replace_from [a] [b] s = map (\<lambda>c. if c = a then b else c) s"
  by (induction s) simp_all

lemma replace_from_skip:
  assumes "hd old \<notin> set F"
  shows "replace_from old new (F @ R) = F @ replace_from old new R"
  using assms
proof (induction F)
  case Nil
  show ?case by simp
next
  case (Cons c F)
  then have c: "c \<noteq> hd old" and F: "hd old \<notin> set F" by auto
  have nm: "\<not> (old \<noteq> [] \<and> take (length old) (c # F @ R) = old)"
  proof
    assume a: "old \<noteq> [] \<and> take (length old) (c # F @ R) = old"
    then obtain x xs where old: "old = x # xs" by (cases old) auto
    with a have "x = c" by simp
    with c old show False by simp
  qed
  show ?case
    by (simp only: append_Cons replace_from.simps nm if_False Cons.IH [OF F])
qed

lemma replace_from_self:
  assumes "old \<noteq> []"
  shows "replace_from old new old = new"
proof -
  from assms obtain x xs where old: "old = x # xs" by (cases old) auto
  show ?thesis unfolding old by simp
qed

lemma replace_from_append:
  assumes "D \<noteq> []" and "last D \<notin> set old"
  shows "replace_from old new (D @ R) = replace_from old new D @ replace_from old new R"
  using assms
proof (induction "length D" arbitrary: D rule: less_induct)
  case less
  from less.prems obtain c cs where D: "D = c # cs" by (cases D) auto
  show ?case
  proof (cases "old \<noteq> [] \<and> take (length old) D = old")
    case True
    then have old: "old \<noteq> []" and tk: "take (length old) D = old" by simp_all
    have len: "length old \<le> length D"
    proof (rule ccontr)
      assume "\<not> length old \<le> length D"
      then have "take (length old) D = D" by simp
      with tk have "D = old" by simp
      moreover have "last D \<in> set D" using less.prems(1) by simp
      ultimately show False using less.prems(2) by simp
    qed
    let ?D' = "drop (length old) D"
    have split: "D = old @ ?D'" using tk by (metis append_take_drop_id)
    have ne: "?D' \<noteq> []"
    proof
      assume "?D' = []"
      with split have "D = old" by simp
      with less.prems old show False by simp
    qed
    have lst: "last ?D' = last D" using ne split by (metis last_appendR)
    have IH: "replace_from old new (?D' @ R) = replace_from old new ?D' @ replace_from old new R"
      using less.hyps [of ?D'] ne lst less.prems(2) old less.prems(1) by simp
    have m1: "take (length old) (D @ R) = old" using tk len by simp
    have d1: "drop (length old - 1) (cs @ R) = ?D' @ R"
      using len old D by (cases old) simp_all
    have d2: "drop (length old - 1) cs = ?D'"
      using old D by (cases old) simp_all
    have e1: "replace_from old new (D @ R) = new @ replace_from old new (?D' @ R)"
      using m1 old d1 unfolding D by simp
    have e2: "replace_from old new D = new @ replace_from old new ?D'"
      using tk old d2 unfolding D by simp
    show ?thesis by (simp only: e1 e2 IH append_assoc)
  next
    case False
    have nm: "\<not> (old \<noteq> [] \<and> take (length old) (D @ R) = old)"
    proof
      assume a: "old \<noteq> [] \<and> take (length old) (D @ R) = old"
      show False
      proof (cases "length old \<le> length D")
        case True
        with a have "take (length old) D = old" by simp
        with a False show False by simp
      next
        case False
        then have "take (length old) (D @ R) = D @ take (length old - length D) R" by simp
        with a have "old = D @ take (length old - length D) R" by simp
        then have "set D \<subseteq> set old" by (metis set_append Un_upper1)
        moreover have "last D \<in> set D" using less.prems(1) by simp
        ultimately show False using less.prems(2) by auto
      qed
    qed
    have s1: "replace_from old new (D @ R) = c # replace_from old new (cs @ R)"
      unfolding D
      by (simp only: append_Cons replace_from.simps nm [unfolded D append_Cons] if_False)
    have s2: "replace_from old new D = c # replace_from old new cs"
      unfolding D by (simp only: replace_from.simps False [unfolded D] if_False)
    show ?thesis
    proof (cases "cs = []")
      case True
      then show ?thesis by (simp add: s1 s2)
    next
      case cs: False
      then have "last cs = last D" unfolding D by simp
      then have "replace_from old new (cs @ R) = replace_from old new cs @ replace_from old new R"
        using less.hyps [of cs] cs less.prems(2) unfolding D by simp
      then show ?thesis by (simp add: s1 s2)
    qed
  qed
qed

lemma str_nat_digits: "set (str_nat n) \<subseteq> {48 .. 57}"
proof (induction n rule: str_nat.induct)
  case (1 n)
  show ?case
  proof (cases "n < 10")
    case True
    then show ?thesis by (subst str_nat.simps) simp
  next
    case False
    have "n mod 10 < 10" by simp
    then have "48 + n mod 10 \<in> {48 .. 57}" by auto
    with False 1 show ?thesis by (subst str_nat.simps) simp
  qed
qed

lemma zero_padded_digits: "set (zero_padded k n) \<subseteq> {48 .. 57}"
  using str_nat_digits [of n] by (auto simp: zero_padded_def)

lemma strftime_stamp_chars: "set (strftime_stamp dt) \<subseteq> insert 95 {48 .. 57}"
  unfolding strftime_stamp_def using zero_padded_digits by fastforce

lemma safe_topic_eq:
  "safe_topic w topic =
     take 30 (map (\<lambda>c. if c = 32 then 95 else c)
       (filter (\<lambda>c. isalnum w c \<or> c = 32 \<or> c = 45 \<or> c = 95) topic))"
proof -
  have "concat (map (\<lambda>c. if isalnum w c \<or> c \<in> {32, 45, 95} then [c] else []) topic) =
        filter (\<lambda>c. isalnum w c \<or> c = 32 \<or> c = 45 \<or> c = 95) topic"
    by (induction topic) simp_all
  then show ?thesis by (simp add: safe_topic_def replace_def replace_from_single)
qed

lemma safe_topic_chars:
  assumes "c \<in> set (safe_topic w topic)"
  shows "isalnum w c \<or> c = 45 \<or> c = 95"
proof -
  from assms have "c \<in> set (map (\<lambda>c. if c = 32 then 95 else c)
       (filter (\<lambda>c. isalnum w c \<or> c = 32 \<or> c = 45 \<or> c = 95) topic))"
    unfolding safe_topic_eq by (rule in_set_takeD)
  then show ?thesis by (auto split: if_splits)
qed

lemma isalnum_ascii: "\<not> isalnum w 46" "\<not> isalnum w 32"
  by (simp_all add: isalnum_def)

lemma doc_dir_last: "doc_dir w \<noteq> [] \<and> last (doc_dir w) = 99"
  by (simp add: doc_dir_def path_join_def startswith_def)

lemma document_path_eq:
  "document_path w topic = doc_dir w @ py ''/'' @ filename w topic"
  using doc_dir_last [of w]
  by (simp add: document_path_def path_join_def startswith_def filename_def)

lemma base_name_no_dot: "46 \<notin> set (base_name w topic)"
proof
  assume "46 \<in> set (base_name w topic)"
  then have "46 \<in> set (safe_topic w topic) \<or> 46 \<in> set (strftime_stamp (now w))"
    by (auto simp: base_name_def)
  then show False
  proof
    assume "46 \<in> set (safe_topic w topic)"
    from safe_topic_chars [OF this] show False by (simp add: isalnum_ascii)
  next
    assume "46 \<in> set (strftime_stamp (now w))"
    with strftime_stamp_chars [of "now w"] show False by auto
  qed
qed

lemma pdf_path_eq:
  "pdf_path w topic =
     replace (doc_dir w @ py ''/'') (py ''.docx'') (py ''.pdf'') @ base_name w topic @ py ''.pdf''"
proof -
  let ?old = "py ''.docx''" and ?new = "py ''.pdf''"
  let ?D = "doc_dir w @ py ''/''"
  have dp: "document_path w topic = ?D @ (base_name w topic @ ?old)"
    by (simp add: document_path_eq filename_def base_name_def)
  have "replace_from ?old ?new (?D @ (base_name w topic @ ?old)) =
        replace_from ?old ?new ?D @ replace_from ?old ?new (base_name w topic @ ?old)"
    by (rule replace_from_append) simp_all
  also have "replace_from ?old ?new (base_name w topic @ ?old) =
        base_name w topic @ replace_from ?old ?new ?old"
    by (rule replace_from_skip) (simp add: base_name_no_dot)
  also have "replace_from ?old ?new ?old = ?new"
    by (rule replace_from_self) simp
  finally show ?thesis
    unfolding pdf_path_def dp replace_def by simp
qed

section \<open>Claims about the file names\<close>

text \<open>
  C9. For every topic, the sanitized topic holds only characters that \<open>str.isalnum\<close>
  accepts, hyphens and underscores, and no space; it has at most 30 characters; it is the
  topic with the other characters removed and every space turned into an underscore, cut
  at 30; it depends on the topic and the character tables only, so the base name
  \<open>research_paper_<sanitized topic>_<timestamp>\<close> of one topic changes with the
  second-resolution timestamp alone. The Word document is written under the output
  directory at the base name with the extension \<open>.docx\<close>; the PDF path has the same
  base name with the extension \<open>.pdf\<close> (its directory is the output directory with
  \<open>.docx\<close> replaced by \<open>.pdf\<close>, the same directory when \<open>.docx\<close> does not occur in
  it). When all three writes succeed these two paths are the result.
\<close>

theorem filename_derivation:
  "(\<forall>c \<in> set (safe_topic w topic). isalnum w c \<or> c = 45 \<or> c = 95) \<and>
   32 \<notin> set (safe_topic w topic) \<and>
   length (safe_topic w topic) \<le> 30 \<and>
   safe_topic w topic =
     take 30 (map (\<lambda>c. if c = 32 then 95 else c)
       (filter (\<lambda>c. isalnum w c \<or> c = 32 \<or> c = 45 \<or> c = 95) topic)) \<and>
   (isalnum_wide w' = isalnum_wide w \<longrightarrow> safe_topic w' topic = safe_topic w topic) \<and>
   base_name w topic =
     py ''research_paper_'' @ safe_topic w topic @ py ''_'' @ strftime_stamp (now w) \<and>
   document_path w topic = doc_dir w @ py ''/'' @ base_name w topic @ py ''.docx'' \<and>
   pdf_path w topic =
     replace (doc_dir w @ py ''/'') (py ''.docx'') (py ''.pdf'') @ base_name w topic @ py ''.pdf'' \<and>
   (makedirs w (doc_dir w) = None \<and>
    save_docx w (document_path w topic) (docx_body content) = None \<and>
    build_pdf w (pdf_path w topic) (pdf_story content) = None \<longrightarrow>
      snd (create_documents w content topic) =
        [''document_path'' \<mapsto> document_path w topic, ''pdf_path'' \<mapsto> pdf_path w topic])"
proof -
  have chars: "\<forall>c \<in> set (safe_topic w topic). isalnum w c \<or> c = 45 \<or> c = 95"
    using safe_topic_chars by blast
  have nosp: "32 \<notin> set (safe_topic w topic)"
  proof
    assume "32 \<in> set (safe_topic w topic)"
    from safe_topic_chars [OF this] show False by (simp add: isalnum_ascii)
  qed
  have len: "length (safe_topic w topic) \<le> 30" by (simp add: safe_topic_def)
  have det: "isalnum_wide w' = isalnum_wide w \<longrightarrow> safe_topic w' topic = safe_topic w topic"
  proof
    assume "isalnum_wide w' = isalnum_wide w"
    then have "isalnum w' = isalnum w" by (simp add: isalnum_def fun_eq_iff)
    then show "safe_topic w' topic = safe_topic w topic" by (simp only: safe_topic_def)
  qed
  have dp: "document_path w topic = doc_dir w @ py ''/'' @ base_name w topic @ py ''.docx''"
    by (simp add: document_path_eq filename_def base_name_def)
  have cd: "makedirs w (doc_dir w) = None \<and>
        save_docx w (document_path w topic) (docx_body content) = None \<and>
        build_pdf w (pdf_path w topic) (pdf_story content) = None \<longrightarrow>
      snd (create_documents w content topic) =
        [''document_path'' \<mapsto> document_path w topic, ''pdf_path'' \<mapsto> pdf_path w topic]"
    by (simp add: create_documents_def Let_def)
  from chars nosp len safe_topic_eq [of w topic] det base_name_def [of w topic] dp
    pdf_path_eq [of w topic] cd
  show ?thesis by (intro conjI)
qed

theorem filename_derivation_witness:
  "safe_topic calm_world (py ''Graph coloring: a survey!'') = py ''Graph_coloring_a_survey'' \<and>
   document_path calm_world (py ''Graph coloring: a survey!'') =
     py ''/w/doc/research_paper_Graph_coloring_a_survey_20240506_070809.docx'' \<and>
   pdf_path calm_world (py ''Graph coloring: a survey!'') =
     py ''/w/doc/research_paper_Graph_coloring_a_survey_20240506_070809.pdf'' \<and>
   snd (create_documents calm_world (py ''# T'') (py ''Graph coloring: a survey!'')) =
     [''document_path'' \<mapsto> document_path calm_world (py ''Graph coloring: a survey!''),
      ''pdf_path'' \<mapsto> pdf_path calm_world (py ''Graph coloring: a survey!'')]"
proof -
  let ?t = "py ''Graph coloring: a survey!''"
  note F = filename_derivation [of calm_world ?t calm_world "py ''# T''"]
  from F have e: "safe_topic calm_world ?t =
     take 30 (map (\<lambda>c. if c = 32 then 95 else c)
       (filter (\<lambda>c. isalnum calm_world c \<or> c = 32 \<or> c = 45 \<or> c = 95) ?t))"
    by (elim conjE)
  have st: "safe_topic calm_world ?t = py ''Graph_coloring_a_survey''"
    unfolding e by (simp add: isalnum_def)
  have dd: "doc_dir calm_world = py ''/w/doc''"
    by (simp add: doc_dir_def path_join_def startswith_def calm_world_def)
  have stamp: "strftime_stamp (now calm_world) = py ''20240506_070809''"
    by (simp add: strftime_stamp_def zero_padded_def str_nat.simps calm_world_def)
  have bn: "base_name calm_world ?t = py ''research_paper_Graph_coloring_a_survey_20240506_070809''"
    unfolding base_name_def st stamp by simp
  have rp: "replace (py ''/w/doc/'') (py ''.docx'') (py ''.pdf'') = py ''/w/doc/''"
    by (simp add: replace_def)
  from F have d0: "document_path calm_world ?t =
      doc_dir calm_world @ py ''/'' @ base_name calm_world ?t @ py ''.docx''"
    by (elim conjE)
  from F have p0: "pdf_path calm_world ?t =
      replace (doc_dir calm_world @ py ''/'') (py ''.docx'') (py ''.pdf'') @
      base_name calm_world ?t @ py ''.pdf''"
    by (elim conjE)
  have d: "document_path calm_world ?t =
     py ''/w/doc/research_paper_Graph_coloring_a_survey_20240506_070809.docx''"
    unfolding d0 bn dd by simp
  have "replace (doc_dir calm_world @ py ''/'') (py ''.docx'') (py ''.pdf'') = py ''/w/doc/''"
    unfolding dd using rp by simp
  then have p: "pdf_path calm_world ?t =
     py ''/w/doc/research_paper_Graph_coloring_a_survey_20240506_070809.pdf''"
    unfolding p0 bn by simp
  have ok: "makedirs calm_world (doc_dir calm_world) = None \<and>
    save_docx calm_world (document_path calm_world ?t) (docx_body (py ''# T'')) = None \<and>
    build_pdf calm_world (pdf_path calm_world ?t) (pdf_story (py ''# T'')) = None"
    by (simp add: calm_world_def)
  from F have "makedirs calm_world (doc_dir calm_world) = None \<and>
    save_docx calm_world (document_path calm_world ?t) (docx_body (py ''# T'')) = None \<and>
    build_pdf calm_world (pdf_path calm_world ?t) (pdf_story (py ''# T'')) = None \<longrightarrow>
    snd (create_documents calm_world (py ''# T'') ?t) =
     [''document_path'' \<mapsto> document_path calm_world ?t,
      ''pdf_path'' \<mapsto> pdf_path calm_world ?t]"
    by (elim conjE)
  from this ok have c: "snd (create_documents calm_world (py ''# T'') ?t) =
     [''document_path'' \<mapsto> document_path calm_world ?t,
      ''pdf_path'' \<mapsto> pdf_path calm_world ?t]"
    by (rule mp)
  from st d p c show ?thesis by (intro conjI)
qed

end
